theory Spec2Isabelle
  imports Main "HOL-Library.Word"
begin

unbundle bit_operations_syntax

section \<open>Machine types of the target\<close>

text \<open>
  The sketches are built for 8-bit AVR boards (the EEPROM library with
  \<^verbatim>\<open>EEPROM.length()\<close>, and \<^verbatim>\<open>DigiKeyboard.h\<close> of the Digispark in two of
  the variants). There \<^verbatim>\<open>int\<close> has 16 bits and \<^verbatim>\<open>long\<close> has 32 bits, both in
  two's complement; \<^verbatim>\<open>uint8_t\<close> is a byte. Arithmetic on words wraps around; a signed
  reading is taken with \<open>sint\<close>, a narrowing conversion is \<open>ucast\<close> (the low bits are
  kept) and the widening of a signed value is \<open>scast\<close> (sign extension).
\<close>

type_synonym byte = "8 word"
type_synonym int16 = "16 word"
type_synonym long = "32 word"

section \<open>Constants of \<^verbatim>\<open>traindetector.ino\<close>\<close>

text \<open>
  The macros, with the parentheses they carry in the source. All values are positive
  \<^verbatim>\<open>int\<close>s, on which the division of C and \<open>div\<close> on words agree.
\<close>

definition second :: int16 where
  "second = 1000"

definition threadDelay :: int16 where
  "threadDelay = 50"

definition eventsDelay :: int16 where
  "eventsDelay = (second div threadDelay) * 60"

definition counterIncreaseRatio :: int16 where
  "counterIncreaseRatio = (second div threadDelay) * 1"

definition secondsCounterAddress :: int16 where
  "secondsCounterAddress = 0"

definition eventIndexAddress :: int16 where
  "eventIndexAddress = 4"

definition eventAddressStep :: int16 where
  "eventAddressStep = 4"

section \<open>Program state\<close>

text \<open>
  The global variables of the sketch, the EEPROM cells, and the sequence of
  \<^verbatim>\<open>EEPROM.write\<close> calls made so far (oldest first). The cells are indexed by the
  \<^verbatim>\<open>int\<close> that \<^verbatim>\<open>EEPROM.read\<close> and \<^verbatim>\<open>EEPROM.write\<close> receive; what the hardware does with
  an index outside \<open>[0, EEPROM.length())\<close> is not part of the sketch, so the model keeps
  one cell per index and records every index that is written.
  Of the serial output only the memory dump is modelled (as the list it prints); the
  status led and the delays are not.
\<close>

record state =
  secondsCounter :: long
  timer :: int16
  memorySize :: int16
  eventAddress :: int16
  isReadOnly :: bool
  hasEvent :: bool
  eventTime :: int16
  eeprom :: "int16 \<Rightarrow> byte"
  written :: "(int16 \<times> byte) list"

text \<open>The initial values of the globals, over given EEPROM contents.\<close>

definition initial_state :: "(int16 \<Rightarrow> byte) \<Rightarrow> state" where
  "initial_state mem =
     \<lparr> secondsCounter = 0, timer = 0, memorySize = 0, eventAddress = 8,
       isReadOnly = False, hasEvent = False, eventTime = 0,
       eeprom = mem, written = [] \<rparr>"

section \<open>EEPROM access and the 4-byte codec\<close>

definition EEPROM_read :: "int16 \<Rightarrow> state \<Rightarrow> byte" where
  "EEPROM_read idx s = eeprom s idx"

definition EEPROM_write :: "int16 \<Rightarrow> byte \<Rightarrow> state \<Rightarrow> state" where
  "EEPROM_write idx val s =
     s \<lparr> eeprom := (eeprom s)(idx := val), written := written s @ [(idx, val)] \<rparr>"

text \<open>
  \<^verbatim>\<open>writeLong(long address, long number)\<close>: four byte writes, most significant byte
  first. \<^verbatim>\<open>>>\<close> on a signed \<^verbatim>\<open>long\<close> is the arithmetic shift; the address is narrowed to
  \<^verbatim>\<open>int\<close> and the value to \<^verbatim>\<open>uint8_t\<close> at each call of \<^verbatim>\<open>EEPROM.write\<close>.
\<close>

definition writeLong :: "long \<Rightarrow> long \<Rightarrow> state \<Rightarrow> state" where
  "writeLong address number s =
     (let s1 = EEPROM_write (ucast address) (ucast (signed_drop_bit 24 number AND 0xFF)) s;
          s2 = EEPROM_write (ucast (address + 1)) (ucast (signed_drop_bit 16 number AND 0xFF)) s1;
          s3 = EEPROM_write (ucast (address + 2)) (ucast (signed_drop_bit 8 number AND 0xFF)) s2
      in EEPROM_write (ucast (address + 3)) (ucast (number AND 0xFF)) s3)"

definition readLong :: "long \<Rightarrow> state \<Rightarrow> long" where
  "readLong address s =
     push_bit 24 (ucast (EEPROM_read (ucast address) s))
     + push_bit 16 (ucast (EEPROM_read (ucast (address + 1)) s))
     + push_bit 8 (ucast (EEPROM_read (ucast (address + 2)) s))
     + ucast (EEPROM_read (ucast (address + 3)) s)"

section \<open>Start-up\<close>

text \<open>
  \<^verbatim>\<open>initializeEventAddress\<close> (the variants; \<^verbatim>\<open>traindetector.ino\<close> has the same
  statements inline in \<^verbatim>\<open>setup\<close>). The \<^verbatim>\<open>long\<close> that \<^verbatim>\<open>readLong\<close> returns is narrowed to
  the \<^verbatim>\<open>int\<close> variable; the write inside the branch happens before the assignment.
\<close>

definition initializeEventAddress :: "state \<Rightarrow> state" where
  "initializeEventAddress s =
     (let s1 = s \<lparr> eventAddress := ucast (readLong (scast eventIndexAddress) s) \<rparr>
      in if sint (eventAddress s1) \<le> 0
         then (writeLong (scast eventIndexAddress) (scast (eventAddress s1)) s1)
                \<lparr> eventAddress := eventIndexAddress \<rparr>
         else s1)"

text \<open>
  \<^verbatim>\<open>setup\<close> of \<^verbatim>\<open>traindetector.ino\<close> (the name carries a suffix, \<open>setup\<close> being
  reserved). Its inputs are the value of \<^verbatim>\<open>EEPROM.length()\<close> and the reading of the
  read-only switch.
\<close>

definition setup_board :: "int16 \<Rightarrow> bool \<Rightarrow> state \<Rightarrow> state" where
  "setup_board len switchHigh s =
     (let s1 = initializeEventAddress (s \<lparr> memorySize := len \<rparr>);
          s2 = s1 \<lparr> secondsCounter := readLong (scast secondsCounterAddress) s1 \<rparr>;
          s3 = (if sint (secondsCounter s2) \<le> 0 then s2 \<lparr> secondsCounter := 0 \<rparr> else s2)
      in if switchHigh then s3 \<lparr> isReadOnly := True \<rparr> else s3)"

text \<open>
  \<^verbatim>\<open>initialzieSecondsCounter\<close> of the variant whose counter is a signed \<^verbatim>\<open>long\<close>
  (the name is spelt as in that file).
\<close>

definition initialzieSecondsCounter :: "state \<Rightarrow> state" where
  "initialzieSecondsCounter s =
     (let s1 = s \<lparr> secondsCounter := readLong (scast secondsCounterAddress) s \<rparr>
      in if sint (secondsCounter s1) \<le> 0
         then (writeLong (scast secondsCounterAddress) 0 s1) \<lparr> secondsCounter := 0 \<rparr>
         else s1)"

text \<open>
  \<^verbatim>\<open>initializeSecondsCounter\<close> of the two variants whose counter is an
  \<^verbatim>\<open>unsigned long\<close>: the same statements, the comparison with 0 being unsigned.
\<close>

definition initializeSecondsCounter :: "state \<Rightarrow> state" where
  "initializeSecondsCounter s =
     (let s1 = s \<lparr> secondsCounter := readLong (scast secondsCounterAddress) s \<rparr>
      in if uint (secondsCounter s1) \<le> 0
         then (writeLong (scast secondsCounterAddress) 0 s1) \<lparr> secondsCounter := 0 \<rparr>
         else s1)"

section \<open>The polling loop of \<^verbatim>\<open>traindetector.ino\<close>\<close>

definition isMemoryFull :: "state \<Rightarrow> bool" where
  "isMemoryFull s \<longleftrightarrow> sint (memorySize s) < sint (eventAddress s)"

text \<open>\<^verbatim>\<open>handleSensor\<close>; the argument is whether the sensor pin reads \<^verbatim>\<open>HIGH\<close>.\<close>

definition handleSensor :: "bool \<Rightarrow> state \<Rightarrow> state" where
  "handleSensor sensorHigh s =
     (let s1 =
        (if \<not> hasEvent s \<and> sensorHigh
         then
           (let s2 = s \<lparr> hasEvent := True, eventTime := 0,
                         eventAddress := eventAddress s + eventAddressStep \<rparr>;
                s3 = writeLong (scast (eventAddress s2)) (secondsCounter s2) s2
            in writeLong (scast eventIndexAddress) (scast (eventAddress s3)) s3)
         else s)
      in if hasEvent s1
         then
           (let s4 = s1 \<lparr> eventTime := eventTime s1 + 1 \<rparr>
            in if sint eventsDelay < sint (eventTime s4) then s4 \<lparr> hasEvent := False \<rparr> else s4)
         else s1)"

definition handleTimer :: "state \<Rightarrow> state" where
  "handleTimer s =
     (let s1 = s \<lparr> timer := timer s + 1 \<rparr>
      in if sint counterIncreaseRatio \<le> sint (timer s1)
         then
           (let s2 = s1 \<lparr> timer := 0, secondsCounter := secondsCounter s1 + 1 \<rparr>
            in writeLong (scast secondsCounterAddress) (secondsCounter s2) s2)
         else s1)"

text \<open>
  One call of \<^verbatim>\<open>loop\<close>. The result names the branch that was taken: the two early
  returns (read-only mode, memory full) or a full polling pass.
\<close>

datatype branch = ReadOnlyMode | MemoryIsFull | Polled

definition loop :: "bool \<Rightarrow> state \<Rightarrow> branch \<times> state" where
  "loop sensorHigh s =
     (if isReadOnly s then (ReadOnlyMode, s)
      else if isMemoryFull s then (MemoryIsFull, s)
      else (Polled, handleTimer (handleSensor sensorHigh s)))"

text \<open>Successive calls of \<^verbatim>\<open>loop\<close>, one sensor reading per call.\<close>

fun run :: "bool list \<Rightarrow> state \<Rightarrow> state" where
  "run [] s = s"
| "run (b # bs) s = run bs (snd (loop b s))"

section \<open>The memory dump\<close>

text \<open>
  \<^verbatim>\<open>printMemoryStatus\<close> of \<^verbatim>\<open>traindetector.ino\<close>, as the list of the pairs of offset and
  value that it prints. Its loop reads the slots at 0, 4, 8 and so on while the offset
  is below \<^verbatim>\<open>EEPROM.length()\<close> (an unsigned 16-bit number, here the first argument),
  counts a value of 0 up and any other value down, and leaves after the pass in which
  the count exceeds 4. The offset is a \<^verbatim>\<open>long\<close> that stays below \<open>65536 + 4\<close>, so it is a
  natural number here; the count is an \<^verbatim>\<open>int\<close>.
\<close>

function printMemoryStatus_from ::
  "int16 \<Rightarrow> nat \<Rightarrow> int16 \<Rightarrow> state \<Rightarrow> (long \<times> long) list" where
  "printMemoryStatus_from len i zeroCount s =
     (if i < unat len
      then
        (let value = readLong (of_nat i) s;
             zeroCount1 = (if value = 0 then zeroCount + 1 else zeroCount - 1)
         in (of_nat i, value) #
            (if 4 < sint zeroCount1 then []
             else printMemoryStatus_from len (i + 4) zeroCount1 s))
      else [])"
  by pat_completeness auto

termination
  by (relation "measure (\<lambda>(len, i, zeroCount, s). unat len - i)") auto

declare printMemoryStatus_from.simps [simp del]

definition printMemoryStatus :: "int16 \<Rightarrow> state \<Rightarrow> (long \<times> long) list" where
  "printMemoryStatus len s = printMemoryStatus_from len 0 0 s"

section \<open>Observations on a run\<close>

text \<open>
  Whether a call of \<^verbatim>\<open>loop\<close> with the given sensor reading stores an event: the loop is
  past its two early returns and \<^verbatim>\<open>handleSensor\<close> takes its first branch.
\<close>

definition appends :: "bool \<Rightarrow> state \<Rightarrow> bool" where
  "appends sensorHigh s \<longleftrightarrow>
     \<not> isReadOnly s \<and> \<not> isMemoryFull s \<and> \<not> hasEvent s \<and> sensorHigh"

text \<open>The values of \<^verbatim>\<open>secondsCounter\<close> at the calls that store an event, in order.\<close>

fun events :: "bool list \<Rightarrow> state \<Rightarrow> long list" where
  "events [] s = []"
| "events (b # bs) s =
     (if appends b s then [secondsCounter s] else []) @ events bs (snd (loop b s))"

text \<open>
  Whether a call of \<^verbatim>\<open>loop\<close> advances the seconds counter: the loop is past its early
  returns and \<^verbatim>\<open>handleTimer\<close> takes its branch.
\<close>

definition fires :: "state \<Rightarrow> bool" where
  "fires s \<longleftrightarrow>
     \<not> isReadOnly s \<and> \<not> isMemoryFull s \<and> sint counterIncreaseRatio \<le> sint (timer s + 1)"

fun ticks :: "bool list \<Rightarrow> state \<Rightarrow> nat" where
  "ticks [] s = 0"
| "ticks (b # bs) s = (if fires s then 1 else 0) + ticks bs (snd (loop b s))"

text \<open>
  The debounce logic alone: successive calls of \<^verbatim>\<open>handleSensor\<close>, and for each call
  whether it took the branch that stores an event.
\<close>

fun pulses :: "bool list \<Rightarrow> state \<Rightarrow> bool list" where
  "pulses [] s = []"
| "pulses (b # bs) s = (\<not> hasEvent s \<and> b) # pulses bs (handleSensor b s)"

section \<open>Concrete inputs\<close>

text \<open>All cells zero; all cells \<open>0xFF\<close> (an erased EEPROM).\<close>

definition blank_eeprom :: "int16 \<Rightarrow> byte" where
  "blank_eeprom = (\<lambda>_. 0)"

definition erased_eeprom :: "int16 \<Rightarrow> byte" where
  "erased_eeprom = (\<lambda>_. 0xFF)"

text \<open>Seconds counter 5, no event index yet.\<close>

definition eeprom_counter_5 :: "int16 \<Rightarrow> byte" where
  "eeprom_counter_5 = (\<lambda>_. 0)(3 := 5)"

text \<open>Seconds counter 5 and event index 8: one event stored before the restart.\<close>

definition eeprom_one_event :: "int16 \<Rightarrow> byte" where
  "eeprom_one_event = (\<lambda>_. 0)(3 := 5, 7 := 8)"

text \<open>Event index 508 (bytes 00 00 01 FC), as the sketch stores it after 126 events.\<close>

definition eeprom_index_508 :: "int16 \<Rightarrow> byte" where
  "eeprom_index_508 = (\<lambda>_. 0)(6 := 1, 7 := 0xFC)"

text \<open>Event index 516 (bytes 00 00 02 04), beyond an EEPROM of 512 bytes.\<close>

definition eeprom_index_516 :: "int16 \<Rightarrow> byte" where
  "eeprom_index_516 = (\<lambda>_. 0)(6 := 2, 7 := 4)"

text \<open>Event index 9, not a multiple of 4.\<close>

definition eeprom_index_9 :: "int16 \<Rightarrow> byte" where
  "eeprom_index_9 = (\<lambda>_. 0)(7 := 9)"

text \<open>Event index 65541 (bytes 00 01 00 05), which no \<^verbatim>\<open>int\<close> holds.\<close>

definition eeprom_index_65541 :: "int16 \<Rightarrow> byte" where
  "eeprom_index_65541 = (\<lambda>_. 0)(5 := 1, 7 := 5)"

text \<open>One pass with the sensor high, followed by 1200 passes with the sensor low.\<close>

definition cooldown_block :: "bool list" where
  "cooldown_block = True # replicate 1200 False"

text \<open>Nineteen passes of the loop with the sensor low.\<close>

definition nineteen_quiet :: "bool list" where
  "nineteen_quiet =
     [False, False, False, False, False, False, False, False, False, False,
      False, False, False, False, False, False, False, False, False]"

section \<open>Auxiliary facts on words\<close>

lemma eventsDelay_eq: "eventsDelay = 1200"
  by (simp add: eventsDelay_def second_def threadDelay_def)

lemma counterIncreaseRatio_eq: "counterIncreaseRatio = 20"
  by (simp add: counterIncreaseRatio_def second_def threadDelay_def)

lemma sint_eventsDelay: "sint eventsDelay = 1200"
  by (simp add: eventsDelay_eq)

lemma narrow_add: "(ucast ((x::long) + y) :: int16) = ucast x + ucast y"
  by (simp add: word_uint_eq_iff uint_word_ariths unsigned_ucast_eq take_bit_eq_mod mod_simps
      mod_mod_cancel)

lemma narrow_scast: "(ucast (scast (a::int16) :: long) :: int16) = a"
  by (rule bit_word_eqI) (auto simp: bit_simps)

lemma mask_255: "(255::long) = mask 8"
  by (simp add: mask_eq_exp_minus_1)

lemma byte3: "(ucast (signed_drop_bit 24 (v::long) AND 0xFF) :: byte) = ucast (drop_bit 24 v)"
  unfolding mask_255 by (rule bit_word_eqI) (auto simp: bit_simps)

lemma byte2: "(ucast (signed_drop_bit 16 (v::long) AND 0xFF) :: byte) = ucast (drop_bit 16 v)"
  unfolding mask_255 by (rule bit_word_eqI) (auto simp: bit_simps)

lemma byte1: "(ucast (signed_drop_bit 8 (v::long) AND 0xFF) :: byte) = ucast (drop_bit 8 v)"
  unfolding mask_255 by (rule bit_word_eqI) (auto simp: bit_simps)

lemma byte0: "(ucast ((v::long) AND 0xFF) :: byte) = ucast v"
  unfolding mask_255 by (rule bit_word_eqI) (auto simp: bit_simps)

lemma sbyte3: "(ucast (signed_drop_bit 24 (v::long)) :: byte) = ucast (drop_bit 24 v)"
  by (rule bit_word_eqI) (auto simp: bit_simps)

lemma sbyte2: "(ucast (signed_drop_bit 16 (v::long)) :: byte) = ucast (drop_bit 16 v)"
  by (rule bit_word_eqI) (auto simp: bit_simps)

lemma sbyte1: "(ucast (signed_drop_bit 8 (v::long)) :: byte) = ucast (drop_bit 8 v)"
  by (rule bit_word_eqI) (auto simp: bit_simps)

lemma minus_one_long: "(- 1 :: long) = 4294967295"
  by simp

lemma erased_bytes:
  "(ucast (mask 8 :: long) :: byte) = 255"
  "(ucast (mask 16 :: long) :: byte) = 255"
  "(ucast (mask 24 :: long) :: byte) = 255"
  "(ucast (- 1 :: long) :: byte) = 255"
  by (simp_all add: mask_eq_exp_minus_1 minus_one_long)

lemma signed_take_bit_add_left:
  "signed_take_bit n (signed_take_bit n (a::int) + b) = signed_take_bit n (a + b)"
  by (metis signed_take_bit_add add.assoc signed_take_bit_of_0 add_0)

lemma sint_add_of_nat:
  assumes "sint (a::long) + int n < 2147483648"
  shows "sint (a + of_nat n) = sint a + int n"
proof -
  have lo: "- 2147483648 \<le> sint a"
    using sint_ge [of a] by simp
  have "sint (a + of_nat n) = signed_take_bit 31 (sint a + int n)"
    by transfer (simp add: signed_take_bit_add_left)
  also have "\<dots> = sint a + int n"
    using assms lo by (simp add: signed_take_bit_int_eq_self)
  finally show ?thesis .
qed

lemma sint_add1:
  assumes "sint (a::int16) \<le> 32766"
  shows "sint (a + 1) = sint a + 1"
proof -
  have lo: "- 32768 \<le> sint a"
    using sint_ge [of a] by simp
  have "sint (a + 1) = signed_take_bit 15 (sint a + 1)"
    by (simp add: sint_word_ariths)
  also have "\<dots> = sint a + 1"
    using assms lo by (simp add: signed_take_bit_int_eq_self)
  finally show ?thesis .
qed

lemma sint_add4:
  assumes "sint (a::int16) \<le> 32763"
  shows "sint (a + 4) = sint a + 4"
proof -
  have lo: "- 32768 \<le> sint a"
    using sint_ge [of a] by simp
  have "sint (a + 4) = signed_take_bit 15 (sint a + 4)"
    by (simp add: sint_word_ariths)
  also have "\<dots> = sint a + 4"
    using assms lo by (simp add: signed_take_bit_int_eq_self)
  finally show ?thesis .
qed

lemma uint_of_sint:
  assumes "0 \<le> sint (a::int16)"
  shows "uint a = sint a"
proof -
  have "sint a < 65536"
    using sint_lt [of a] by simp
  then have "take_bit 16 (sint a) = sint a"
    using assms by (simp add: take_bit_int_eq_self)
  then show ?thesis
    by (simp add: uint_sint)
qed

lemma uint_add_nonneg:
  assumes "0 \<le> sint (a::int16)" and "uint b \<le> 32767"
  shows "uint (a + b) = uint a + uint b"
proof -
  have "uint a < 32768"
    using uint_of_sint [OF assms(1)] sint_lt [of a] by simp
  then have "uint a + uint b < 2 ^ LENGTH(16)"
    using assms(2) by simp
  then show ?thesis
    by (simp only: uint_add_lem)
qed

text \<open>The four cells of the record above a pointer, read as unsigned numbers.\<close>

lemma record_addresses:
  assumes "0 \<le> sint (a::int16)"
  shows "uint (a + 4) = sint a + 4" "uint (a + 5) = sint a + 5"
    "uint (a + 6) = sint a + 6" "uint (a + 7) = sint a + 7"
  using uint_add_nonneg [OF assms, of 4] uint_add_nonneg [OF assms, of 5]
    uint_add_nonneg [OF assms, of 6] uint_add_nonneg [OF assms, of 7]
    uint_of_sint [OF assms]
  by simp_all

lemma low_addresses:
  "8 \<le> uint (x::int16) \<Longrightarrow>
     x \<notin> {0, 1, 2, 3} \<and> x \<noteq> 4 \<and> x \<noteq> 5 \<and> x \<noteq> 6 \<and> x \<noteq> 7"
  by auto

lemma narrow_small:
  assumes "0 < sint (v::long)" and "sint v \<le> 32767"
  shows "sint (ucast v :: int16) = sint v"
proof -
  have "sint v < 4294967296"
    using assms(2) by simp
  then have "take_bit 32 (sint v) = sint v"
    using assms(1) by (simp add: take_bit_int_eq_self)
  then have u: "uint v = sint v"
    by (simp add: uint_sint)
  have "sint (ucast v :: int16) = signed_take_bit 15 (uint (ucast v :: int16))"
    by (simp add: sint_uint)
  also have "\<dots> = signed_take_bit 15 (take_bit 16 (uint v))"
    by (simp add: unsigned_ucast_eq)
  also have "\<dots> = signed_take_bit 15 (uint v)"
    by (simp add: signed_take_bit_take_bit)
  also have "\<dots> = sint v"
    using assms by (simp add: u signed_take_bit_int_eq_self)
  finally show ?thesis .
qed

lemma uint_add4_mod4: "uint ((a::int16) + 4) mod 4 = uint a mod 4"
proof -
  have "uint (a + 4) = (uint a + 4) mod 65536"
    by (simp add: uint_word_ariths)
  then have "uint (a + 4) mod 4 = (uint a + 4) mod 65536 mod 4"
    by simp
  also have "\<dots> = (uint a + 4) mod 4"
    by (simp add: mod_mod_cancel)
  finally show ?thesis by simp
qed

lemma count_take_mono:
  "length (filter P (take m xs)) \<le> length (filter P (take (Suc m) xs))"
proof (induction xs arbitrary: m)
  case Nil
  then show ?case by simp
next
  case (Cons x xs)
  then show ?case by (cases m) simp_all
qed

section \<open>The codec\<close>

lemma writeLong_eq:
  "writeLong address number s =
     s \<lparr> eeprom := (eeprom s)
            (ucast address := ucast (drop_bit 24 number),
             ucast address + 1 := ucast (drop_bit 16 number),
             ucast address + 2 := ucast (drop_bit 8 number),
             ucast address + 3 := ucast number),
         written := written s @
            [(ucast address, ucast (drop_bit 24 number)),
             (ucast address + 1, ucast (drop_bit 16 number)),
             (ucast address + 2, ucast (drop_bit 8 number)),
             (ucast address + 3, ucast number)] \<rparr>"
  by (simp add: writeLong_def EEPROM_write_def Let_def byte0 byte1 byte2 byte3
      sbyte1 sbyte2 sbyte3 narrow_add)

lemma readLong_eq:
  "readLong address s =
     push_bit 24 (ucast (eeprom s (ucast address)))
     + push_bit 16 (ucast (eeprom s (ucast address + 1)))
     + push_bit 8 (ucast (eeprom s (ucast address + 2)))
     + ucast (eeprom s (ucast address + 3))"
  by (simp add: readLong_def EEPROM_read_def narrow_add)

lemma writeLong_keeps [simp]:
  "secondsCounter (writeLong a v s) = secondsCounter s"
  "timer (writeLong a v s) = timer s"
  "memorySize (writeLong a v s) = memorySize s"
  "eventAddress (writeLong a v s) = eventAddress s"
  "isReadOnly (writeLong a v s) = isReadOnly s"
  "hasEvent (writeLong a v s) = hasEvent s"
  "eventTime (writeLong a v s) = eventTime s"
  by (simp_all add: writeLong_eq)

lemma decode_bytes:
  "push_bit 24 (ucast (ucast (drop_bit 24 v) :: byte) :: long)
   + push_bit 16 (ucast (ucast (drop_bit 16 v) :: byte))
   + push_bit 8 (ucast (ucast (drop_bit 8 v) :: byte))
   + ucast (ucast v :: byte) = v"
proof -
  let ?a = "push_bit 24 (ucast (ucast (drop_bit 24 v) :: byte) :: long)"
  let ?b = "push_bit 16 (ucast (ucast (drop_bit 16 v) :: byte) :: long)"
  let ?c = "push_bit 8 (ucast (ucast (drop_bit 8 v) :: byte) :: long)"
  let ?d = "ucast (ucast v :: byte) :: long"
  have ab: "?a + ?b = ?a OR ?b"
    by (rule disjunctive_add_eq_or, rule bit_word_eqI) (auto simp: bit_simps)
  have abc: "(?a OR ?b) + ?c = (?a OR ?b) OR ?c"
    by (rule disjunctive_add_eq_or, rule bit_word_eqI) (auto simp: bit_simps)
  have abcd: "((?a OR ?b) OR ?c) + ?d = ((?a OR ?b) OR ?c) OR ?d"
    by (rule disjunctive_add_eq_or, rule bit_word_eqI) (auto simp: bit_simps)
  have "((?a OR ?b) OR ?c) OR ?d = v"
  proof (rule bit_word_eqI)
    fix n assume "n < LENGTH(32)"
    then consider "n < 8" | "8 \<le> n" "n < 16" | "16 \<le> n" "n < 24" | "24 \<le> n" "n < 32"
      by fastforce
    then show "bit (((?a OR ?b) OR ?c) OR ?d) n = bit v n"
      by cases (auto simp add: bit_simps)
  qed
  then show ?thesis
    by (simp only: ab abc abcd)
qed

lemma readLong_writeLong: "readLong address (writeLong address v s) = v"
  by (simp add: readLong_eq writeLong_eq decode_bytes)

lemma readLong_frame:
  assumes "eeprom t (ucast a) = eeprom s (ucast a)"
    and "eeprom t (ucast a + 1) = eeprom s (ucast a + 1)"
    and "eeprom t (ucast a + 2) = eeprom s (ucast a + 2)"
    and "eeprom t (ucast a + 3) = eeprom s (ucast a + 3)"
  shows "readLong a t = readLong a s"
  using assms by (simp add: readLong_eq)

lemma readLong_narrow:
  "(ucast a :: int16) = ucast b \<Longrightarrow> readLong a s = readLong b s"
  by (simp add: readLong_eq)

text \<open>
  Claim C7. Reading a \<^verbatim>\<open>long\<close> back from the address it was written to returns it, for
  every 32-bit value (negative values and the extreme values included), and the four
  bytes lie most significant first: the byte at the lowest address holds bits 24 to 31.
\<close>

theorem codec_roundtrip:
  "readLong address (writeLong address v s) = v
   \<and> map (\<lambda>i. EEPROM_read (ucast address + i) (writeLong address v s)) [0, 1, 2, 3]
       = [ucast (drop_bit 24 v), ucast (drop_bit 16 v), ucast (drop_bit 8 v), ucast v]"
  by (simp add: readLong_writeLong) (simp add: writeLong_eq EEPROM_read_def)

section \<open>Effects of the handlers\<close>

lemmas model_defs = loop_def handleSensor_def handleTimer_def isMemoryFull_def
  setup_board_def initializeEventAddress_def initial_state_def
  eventIndexAddress_def eventAddressStep_def secondsCounterAddress_def
  eventsDelay_eq counterIncreaseRatio_eq Let_def

lemma handleTimer_keeps [simp]:
  "eventAddress (handleTimer s) = eventAddress s"
  "memorySize (handleTimer s) = memorySize s"
  "isReadOnly (handleTimer s) = isReadOnly s"
  "hasEvent (handleTimer s) = hasEvent s"
  "eventTime (handleTimer s) = eventTime s"
  by (simp_all add: handleTimer_def writeLong_eq Let_def)

lemma handleTimer_secondsCounter:
  "secondsCounter (handleTimer s) =
     (if sint counterIncreaseRatio \<le> sint (timer s + 1)
      then secondsCounter s + 1 else secondsCounter s)"
  by (simp add: handleTimer_def writeLong_eq Let_def)

lemma handleTimer_persists:
  "sint counterIncreaseRatio \<le> sint (timer s + 1) \<Longrightarrow>
     readLong (scast secondsCounterAddress) (handleTimer s) = secondsCounter (handleTimer s)"
  by (simp add: handleTimer_def Let_def readLong_writeLong)

lemma handleTimer_eeprom:
  "x \<notin> {0, 1, 2, 3} \<Longrightarrow> eeprom (handleTimer s) x = eeprom s x"
  by (simp add: handleTimer_def writeLong_eq secondsCounterAddress_def Let_def)

lemma handleTimer_quiet:
  "\<not> sint counterIncreaseRatio \<le> sint (timer s + 1) \<Longrightarrow>
     eeprom (handleTimer s) = eeprom s \<and> secondsCounter (handleTimer s) = secondsCounter s"
  by (simp add: handleTimer_def Let_def)

lemma handleSensor_keeps [simp]:
  "secondsCounter (handleSensor b s) = secondsCounter s"
  "timer (handleSensor b s) = timer s"
  "memorySize (handleSensor b s) = memorySize s"
  "isReadOnly (handleSensor b s) = isReadOnly s"
  by (simp_all add: handleSensor_def writeLong_eq Let_def)

lemma handleSensor_eventAddress:
  "eventAddress (handleSensor b s) =
     (if \<not> hasEvent s \<and> b then eventAddress s + 4 else eventAddress s)"
  by (simp add: handleSensor_def writeLong_eq eventAddressStep_def Let_def)

lemma handleSensor_hasEvent_fresh:
  "\<not> hasEvent s \<Longrightarrow> b \<Longrightarrow>
     hasEvent (handleSensor b s) \<and> sint (eventTime (handleSensor b s)) = 1"
  by (simp add: handleSensor_def Let_def sint_eventsDelay)

lemma handleSensor_cooling:
  "hasEvent s \<Longrightarrow> sint (eventTime s) < 1200 \<Longrightarrow>
     hasEvent (handleSensor b s) \<and> sint (eventTime (handleSensor b s)) = sint (eventTime s) + 1"
  by (simp add: handleSensor_def Let_def sint_eventsDelay sint_add1)

lemma handleSensor_eeprom_idle:
  "\<not> (\<not> hasEvent s \<and> b) \<Longrightarrow> eeprom (handleSensor b s) = eeprom s"
  by (auto simp add: handleSensor_def Let_def)

lemma handleSensor_eeprom_append:
  "\<not> hasEvent s \<Longrightarrow>
     eeprom (handleSensor True s) x =
       (if x = 7 then ucast (scast (eventAddress s + 4) :: long)
        else if x = 6 then ucast (drop_bit 8 (scast (eventAddress s + 4) :: long))
        else if x = 5 then ucast (drop_bit 16 (scast (eventAddress s + 4) :: long))
        else if x = 4 then ucast (drop_bit 24 (scast (eventAddress s + 4) :: long))
        else if x = eventAddress s + 7 then ucast (secondsCounter s)
        else if x = eventAddress s + 6 then ucast (drop_bit 8 (secondsCounter s))
        else if x = eventAddress s + 5 then ucast (drop_bit 16 (secondsCounter s))
        else if x = eventAddress s + 4 then ucast (drop_bit 24 (secondsCounter s))
        else eeprom s x)"
  by (simp add: handleSensor_def Let_def writeLong_eq narrow_scast eventIndexAddress_def
      eventAddressStep_def)

section \<open>Effects of one pass of the loop\<close>

lemma loop_memorySize [simp]: "memorySize (snd (loop b s)) = memorySize s"
  by (simp add: loop_def)

lemma loop_isReadOnly [simp]: "isReadOnly (snd (loop b s)) = isReadOnly s"
  by (simp add: loop_def)

lemma loop_eventAddress:
  "eventAddress (snd (loop b s)) = (if appends b s then eventAddress s + 4 else eventAddress s)"
  by (simp add: loop_def appends_def handleSensor_eventAddress)

lemma loop_secondsCounter:
  "secondsCounter (snd (loop b s)) = secondsCounter s + (if fires s then 1 else 0)"
  by (simp add: loop_def fires_def handleTimer_secondsCounter)

lemma loop_persists:
  "fires s \<Longrightarrow>
     readLong (scast secondsCounterAddress) (snd (loop b s)) = secondsCounter (snd (loop b s))"
  by (simp add: loop_def fires_def handleTimer_persists)

lemma loop_full: "isMemoryFull s \<Longrightarrow> snd (loop b s) = s"
  by (simp add: loop_def)

lemma run_full: "isMemoryFull s \<Longrightarrow> run bs s = s"
  by (induction bs) (simp_all add: loop_full)

lemma appends_room:
  "appends b s \<Longrightarrow> sint (memorySize s) \<le> 32763 \<Longrightarrow> sint (eventAddress s) \<le> 32763"
  by (simp add: appends_def isMemoryFull_def)

text \<open>A pass leaves the records below the pointer as they are.\<close>

lemma loop_frame:
  assumes "0 \<le> sint (eventAddress s)" and "8 \<le> uint x"
    and "uint x < sint (eventAddress s) + 4"
  shows "eeprom (snd (loop b s)) x = eeprom s x"
proof (cases "fst (loop b s) = Polled")
  case False
  then show ?thesis
    by (auto simp add: loop_def split: if_splits)
next
  case True
  then have polled: "snd (loop b s) = handleTimer (handleSensor b s)"
    by (auto simp add: loop_def split: if_splits)
  have x: "x \<notin> {0, 1, 2, 3}" "x \<noteq> 4 \<and> x \<noteq> 5 \<and> x \<noteq> 6 \<and> x \<noteq> 7"
    using low_addresses [OF assms(2)] by simp_all
  have above: "x \<noteq> eventAddress s + 4" "x \<noteq> eventAddress s + 5"
    "x \<noteq> eventAddress s + 6" "x \<noteq> eventAddress s + 7"
    using record_addresses [OF assms(1)] assms(3) by auto
  have "eeprom (handleSensor b s) x = eeprom s x"
  proof (cases "\<not> hasEvent s \<and> b")
    case True
    then show ?thesis
      using x above by (simp add: handleSensor_eeprom_append)
  next
    case False
    then show ?thesis
      by (simp add: handleSensor_eeprom_idle)
  qed
  then show ?thesis
    using x by (simp add: polled handleTimer_eeprom)
qed

text \<open>A pass that stores an event leaves the seconds counter in the slot above the pointer.\<close>

lemma loop_stores:
  assumes "appends b s" and "4 \<le> sint (eventAddress s)"
  shows "readLong (scast (eventAddress s) + 4) (snd (loop b s)) = secondsCounter s"
proof -
  have nn: "0 \<le> sint (eventAddress s)"
    using assms(2) by simp
  have polled: "snd (loop b s) = handleTimer (handleSensor True s)" and idle: "\<not> hasEvent s"
    using assms(1) by (simp_all add: appends_def loop_def)
  have u: "8 \<le> uint (eventAddress s + 4)" "8 \<le> uint (eventAddress s + 5)"
    "8 \<le> uint (eventAddress s + 6)" "8 \<le> uint (eventAddress s + 7)"
    using record_addresses [OF nn] assms(2) by simp_all
  have d: "eventAddress s + 5 \<noteq> eventAddress s + 4" "eventAddress s + 6 \<noteq> eventAddress s + 4"
    "eventAddress s + 7 \<noteq> eventAddress s + 4" "eventAddress s + 6 \<noteq> eventAddress s + 5"
    "eventAddress s + 7 \<noteq> eventAddress s + 5" "eventAddress s + 7 \<noteq> eventAddress s + 6"
    by simp_all
  have b4: "eeprom (snd (loop b s)) (eventAddress s + 4) = ucast (drop_bit 24 (secondsCounter s))"
    using low_addresses [OF u(1)] d
    by (simp add: polled handleTimer_eeprom handleSensor_eeprom_append idle)
  have b5: "eeprom (snd (loop b s)) (eventAddress s + 5) = ucast (drop_bit 16 (secondsCounter s))"
    using low_addresses [OF u(2)] d
    by (simp add: polled handleTimer_eeprom handleSensor_eeprom_append idle)
  have b6: "eeprom (snd (loop b s)) (eventAddress s + 6) = ucast (drop_bit 8 (secondsCounter s))"
    using low_addresses [OF u(3)] d
    by (simp add: polled handleTimer_eeprom handleSensor_eeprom_append idle)
  have b7: "eeprom (snd (loop b s)) (eventAddress s + 7) = ucast (secondsCounter s)"
    using low_addresses [OF u(4)] d
    by (simp add: polled handleTimer_eeprom handleSensor_eeprom_append idle)
  have a: "(ucast (scast (eventAddress s) + 4 :: long) :: int16) = eventAddress s + 4"
    "eventAddress s + 4 + 1 = eventAddress s + 5" "eventAddress s + 4 + 2 = eventAddress s + 6"
    "eventAddress s + 4 + 3 = eventAddress s + 7"
    by (simp_all add: narrow_add narrow_scast)
  show ?thesis
    by (simp only: readLong_eq a b4 b5 b6 b7 decode_bytes)
qed

text \<open>The cells of the seconds counter are out of reach of \<^verbatim>\<open>handleSensor\<close>.\<close>

lemma handleSensor_counter_cells:
  assumes "0 \<le> sint (eventAddress s)" and "x \<in> {0, 1, 2, 3}"
  shows "eeprom (handleSensor b s) x = eeprom s x"
proof (cases "\<not> hasEvent s \<and> b")
  case False
  then show ?thesis
    by (simp add: handleSensor_eeprom_idle)
next
  case True
  have "uint x \<le> 3"
    using assms(2) by auto
  then have "x \<noteq> eventAddress s + 4" "x \<noteq> eventAddress s + 5"
    "x \<noteq> eventAddress s + 6" "x \<noteq> eventAddress s + 7"
    using record_addresses [OF assms(1)] assms(1) by auto
  then show ?thesis
    using True assms(2) by (auto simp add: handleSensor_eeprom_append)
qed

lemma handleSensor_counter_slot:
  assumes "0 \<le> sint (eventAddress s)"
  shows "readLong (scast secondsCounterAddress) (handleSensor b s)
         = readLong (scast secondsCounterAddress) s"
  by (rule readLong_frame)
    (simp_all add: secondsCounterAddress_def handleSensor_counter_cells [OF assms])

lemma loop_keeps_synced:
  assumes "0 \<le> sint (eventAddress s)"
    and "readLong (scast secondsCounterAddress) s = secondsCounter s \<or> fires s"
  shows "readLong (scast secondsCounterAddress) (snd (loop b s)) = secondsCounter (snd (loop b s))"
proof (cases "fires s")
  case True
  then show ?thesis
    by (rule loop_persists)
next
  case False
  with assms(2) have synced: "readLong (scast secondsCounterAddress) s = secondsCounter s"
    by simp
  show ?thesis
  proof (cases "fst (loop b s) = Polled")
    case False
    then have "snd (loop b s) = s"
      by (auto simp add: loop_def split: if_splits)
    then show ?thesis
      using synced by simp
  next
    case True
    then have polled: "snd (loop b s) = handleTimer (handleSensor b s)"
      and quiet: "\<not> sint counterIncreaseRatio \<le> sint (timer (handleSensor b s) + 1)"
      using \<open>\<not> fires s\<close> by (auto simp add: loop_def fires_def split: if_splits)
    have "readLong (scast secondsCounterAddress) (handleTimer (handleSensor b s))
          = readLong (scast secondsCounterAddress) (handleSensor b s)"
      using handleTimer_quiet [OF quiet] by (simp add: readLong_eq)
    then show ?thesis
      using handleTimer_quiet [OF quiet] handleSensor_counter_slot [OF assms(1), of b] synced
      by (simp add: polled)
  qed
qed

lemma loop_address_nonneg:
  assumes "0 \<le> sint (eventAddress s)" and "sint (memorySize s) \<le> 32763"
  shows "0 \<le> sint (eventAddress (snd (loop b s)))"
proof (cases "appends b s")
  case True
  then show ?thesis
    using sint_add4 [OF appends_room [OF True assms(2)]] assms(1) by (simp add: loop_eventAddress)
next
  case False
  then show ?thesis
    using assms(1) by (simp add: loop_eventAddress)
qed

lemma loop_alignment:
  "uint (eventAddress (snd (loop b s))) mod 4 = uint (eventAddress s) mod 4"
  by (simp add: loop_eventAddress uint_add4_mod4)

section \<open>Runs of events with their cooldown\<close>

lemma run_append: "run (xs @ ys) s = run ys (run xs s)"
  by (induction xs arbitrary: s) simp_all

lemma loop_cooling:
  assumes "hasEvent s" and "\<not> isReadOnly s" and "\<not> isMemoryFull s"
  shows "eventAddress (snd (loop b s)) = eventAddress s"
    and "sint (eventTime s) < 1200 \<Longrightarrow>
           hasEvent (snd (loop b s)) \<and> sint (eventTime (snd (loop b s))) = sint (eventTime s) + 1"
    and "sint (eventTime s) = 1200 \<Longrightarrow> \<not> hasEvent (snd (loop b s))"
  using assms
  by (simp_all add: loop_def handleSensor_eventAddress handleSensor_cooling)
     (simp add: handleSensor_def Let_def sint_eventsDelay sint_add1)

lemma run_cooling:
  "hasEvent s \<Longrightarrow> \<not> isReadOnly s \<Longrightarrow> \<not> isMemoryFull s \<Longrightarrow>
   sint (eventTime s) \<le> 1200 \<Longrightarrow> sint (eventTime s) + int n = 1201 \<Longrightarrow>
     \<not> hasEvent (run (replicate n False) s) \<and>
     eventAddress (run (replicate n False) s) = eventAddress s \<and>
     memorySize (run (replicate n False) s) = memorySize s \<and>
     \<not> isReadOnly (run (replicate n False) s)"
proof (induction n arbitrary: s)
  case 0
  then show ?case by simp
next
  case (Suc n)
  let ?s1 = "snd (loop False s)"
  have ea: "eventAddress ?s1 = eventAddress s"
    using loop_cooling(1) [OF Suc.prems(1,2,3)] .
  have full: "\<not> isMemoryFull ?s1"
    using Suc.prems(3) by (simp add: isMemoryFull_def ea)
  show ?case
  proof (cases n)
    case 0
    then have "sint (eventTime s) = 1200"
      using Suc.prems(5) by simp
    then have "\<not> hasEvent ?s1"
      using loop_cooling(3) [OF Suc.prems(1,2,3)] by simp
    then show ?thesis
      using 0 ea Suc.prems(2) by simp
  next
    case (Suc m)
    then have lt: "sint (eventTime s) < 1200"
      using Suc.prems(5) by simp
    have h: "hasEvent ?s1" and t: "sint (eventTime ?s1) = sint (eventTime s) + 1"
      using loop_cooling(2) [OF Suc.prems(1,2,3) lt] by simp_all
    have "\<not> hasEvent (run (replicate n False) ?s1) \<and>
       eventAddress (run (replicate n False) ?s1) = eventAddress ?s1 \<and>
       memorySize (run (replicate n False) ?s1) = memorySize ?s1 \<and>
       \<not> isReadOnly (run (replicate n False) ?s1)"
      using Suc.IH [OF h _ full] Suc.prems(2,5) lt t by simp
    then show ?thesis
      by (simp add: ea)
  qed
qed

lemma run_cooldown_block:
  assumes "\<not> isReadOnly s" and "\<not> hasEvent s" and "sint (eventAddress s) + 4 \<le> sint (memorySize s)"
  shows "\<not> hasEvent (run cooldown_block s) \<and>
     sint (eventAddress (run cooldown_block s)) = sint (eventAddress s) + 4 \<and>
     memorySize (run cooldown_block s) = memorySize s \<and>
     \<not> isReadOnly (run cooldown_block s)"
proof -
  let ?s1 = "snd (loop True s)"
  have room: "sint (eventAddress s) \<le> 32763"
    using assms(3) sint_lt [of "memorySize s"] by simp
  have notfull: "\<not> isMemoryFull s"
    using assms(3) by (simp add: isMemoryFull_def)
  have app: "appends True s"
    using assms(1,2) notfull by (simp add: appends_def)
  have ea1: "eventAddress ?s1 = eventAddress s + 4"
    using app by (simp add: loop_eventAddress)
  have sea1: "sint (eventAddress ?s1) = sint (eventAddress s) + 4"
    using room by (simp add: ea1 sint_add4)
  have h: "hasEvent ?s1" and t: "sint (eventTime ?s1) = 1"
    using handleSensor_hasEvent_fresh [of s True] assms(1,2) notfull
    by (simp_all add: loop_def)
  have full1: "\<not> isMemoryFull ?s1"
    using assms(3) sea1 by (simp add: isMemoryFull_def)
  have ro1: "\<not> isReadOnly ?s1"
    using assms(1) by simp
  have "\<not> hasEvent (run (replicate 1200 False) ?s1) \<and>
     eventAddress (run (replicate 1200 False) ?s1) = eventAddress ?s1 \<and>
     memorySize (run (replicate 1200 False) ?s1) = memorySize ?s1 \<and>
     \<not> isReadOnly (run (replicate 1200 False) ?s1)"
    using run_cooling [OF h ro1 full1, of 1200] t by simp
  then show ?thesis
    using sea1 by (simp add: cooldown_block_def)
qed

lemma run_cooldown_blocks:
  "\<not> isReadOnly s \<Longrightarrow> \<not> hasEvent s \<Longrightarrow>
   sint (eventAddress s) + 4 * int k \<le> sint (memorySize s) \<Longrightarrow>
     \<not> hasEvent (run (concat (replicate k cooldown_block)) s) \<and>
     sint (eventAddress (run (concat (replicate k cooldown_block)) s))
       = sint (eventAddress s) + 4 * int k \<and>
     memorySize (run (concat (replicate k cooldown_block)) s) = memorySize s \<and>
     \<not> isReadOnly (run (concat (replicate k cooldown_block)) s)"
proof (induction k arbitrary: s)
  case 0
  then show ?case by simp
next
  case (Suc k)
  let ?s1 = "run cooldown_block s"
  have step: "\<not> hasEvent ?s1 \<and> sint (eventAddress ?s1) = sint (eventAddress s) + 4 \<and>
     memorySize ?s1 = memorySize s \<and> \<not> isReadOnly ?s1"
    using run_cooldown_block [of s] Suc.prems by simp
  then have "\<not> hasEvent (run (concat (replicate k cooldown_block)) ?s1) \<and>
     sint (eventAddress (run (concat (replicate k cooldown_block)) ?s1))
       = sint (eventAddress ?s1) + 4 * int k \<and>
     memorySize (run (concat (replicate k cooldown_block)) ?s1) = memorySize ?s1 \<and>
     \<not> isReadOnly (run (concat (replicate k cooldown_block)) ?s1)"
    using Suc.IH [of ?s1] Suc.prems(3) by simp
  then show ?case
    using step by (simp add: run_append)
qed

section \<open>Storing an event\<close>

text \<open>
  Claim C1, as amended. For every state in which no event is pending (in particular for
  every such state that is not full, the only ones in which \<^verbatim>\<open>loop\<close> calls
  \<^verbatim>\<open>handleSensor\<close>), a high sensor reading makes \<^verbatim>\<open>handleSensor\<close> advance
  \<^verbatim>\<open>eventAddress\<close> by 4 and issue eight byte writes in this order: first the four bytes
  of \<^verbatim>\<open>secondsCounter\<close> at the new pointer address, and only afterwards the four bytes of
  the new pointer at the index offset 4.
\<close>

theorem append_payload_then_pointer:
  "\<not> hasEvent s \<Longrightarrow>
     eventAddress (handleSensor True s) = eventAddress s + 4 \<and>
     written (handleSensor True s) = written s @
       [(eventAddress s + 4, ucast (drop_bit 24 (secondsCounter s))),
        (eventAddress s + 4 + 1, ucast (drop_bit 16 (secondsCounter s))),
        (eventAddress s + 4 + 2, ucast (drop_bit 8 (secondsCounter s))),
        (eventAddress s + 4 + 3, ucast (secondsCounter s)),
        (4, ucast (drop_bit 24 (scast (eventAddress s + 4) :: long))),
        (5, ucast (drop_bit 16 (scast (eventAddress s + 4) :: long))),
        (6, ucast (drop_bit 8 (scast (eventAddress s + 4) :: long))),
        (7, ucast (scast (eventAddress s + 4) :: long))]"
  by (simp add: handleSensor_def writeLong_eq narrow_scast eventIndexAddress_def
      eventAddressStep_def Let_def)

text \<open>
  At a restart with seconds counter 5 and event index 8 in an EEPROM of 32 bytes the
  record bytes go out at 12 to 15 and the index bytes at 4 to 7 after them.
\<close>

theorem append_payload_then_pointer_witness:
  "\<not> hasEvent (setup_board 32 False (initial_state eeprom_one_event)) \<and>
   eventAddress (handleSensor True (setup_board 32 False (initial_state eeprom_one_event))) = 12 \<and>
   written (handleSensor True (setup_board 32 False (initial_state eeprom_one_event)))
     = [(12, 0), (13, 0), (14, 0), (15, 5), (4, 0), (5, 0), (6, 0), (7, 12)]"
  using append_payload_then_pointer [of "setup_board 32 False (initial_state eeprom_one_event)"]
  by (simp add: setup_board_def initializeEventAddress_def initial_state_def
      eventIndexAddress_def secondsCounterAddress_def Let_def readLong_eq eeprom_one_event_def)

text \<open>
  The order in which claim C1 states the writes (index first, record second) is not the
  order of the code: there the state is not full, and the write sequence differs from
  the claimed one.
\<close>

theorem append_pointer_first_counterexample:
  "\<not> isMemoryFull (setup_board 32 False (initial_state eeprom_one_event)) \<and>
   written (handleSensor True (setup_board 32 False (initial_state eeprom_one_event)))
     = [(12, 0), (13, 0), (14, 0), (15, 5), (4, 0), (5, 0), (6, 0), (7, 12)] \<and>
   written (handleSensor True (setup_board 32 False (initial_state eeprom_one_event)))
     \<noteq> [(4, 0), (5, 0), (6, 0), (7, 12), (12, 0), (13, 0), (14, 0), (15, 5)]"
  by (simp add: model_defs readLong_eq writeLong_eq eeprom_one_event_def)

section \<open>Start-up on an empty or erased EEPROM\<close>

text \<open>
  Claim C2, evaluated on an all-zero EEPROM. \<^verbatim>\<open>initializeEventAddress\<close> sets the pointer in
  memory to 4, but the four bytes it writes to the index offset are those of the value
  it has just read (0), the write standing before the assignment: the index offset
  still decodes to 0 afterwards, not to 4.
\<close>

theorem init_blank_index_written_back:
  "eventAddress (initializeEventAddress (initial_state blank_eeprom)) = 4 \<and>
   written (initializeEventAddress (initial_state blank_eeprom))
     = [(4, 0), (5, 0), (6, 0), (7, 0)] \<and>
   readLong 4 (initializeEventAddress (initial_state blank_eeprom)) = 0"
  by (simp add: model_defs readLong_eq writeLong_eq blank_eeprom_def)

text \<open>The same on an erased EEPROM: the index offset keeps the value \<open>-1\<close>.\<close>

lemma init_erased_index_written_back:
  "eventAddress (initializeEventAddress (initial_state erased_eeprom)) = 4 \<and>
   written (initializeEventAddress (initial_state erased_eeprom))
     = [(4, 0xFF), (5, 0xFF), (6, 0xFF), (7, 0xFF)] \<and>
   readLong 4 (initializeEventAddress (initial_state erased_eeprom)) = - 1"
  by (simp add: model_defs readLong_eq writeLong_eq erased_eeprom_def erased_bytes)

text \<open>
  Claim C9, evaluated on an erased EEPROM, whose seconds counter decodes to \<open>-1\<close>.
  \<^verbatim>\<open>setup\<close> of \<^verbatim>\<open>traindetector.ino\<close> resets the counter in memory to 0 and writes nothing
  to the offsets 0 to 3 (its only writes are those to the index offset): the stored
  counter still decodes to \<open>-1\<close>.
\<close>

theorem setup_erased_counter_not_persisted:
  "readLong 0 (initial_state erased_eeprom) = - 1 \<and>
   secondsCounter (setup_board 512 False (initial_state erased_eeprom)) = 0 \<and>
   written (setup_board 512 False (initial_state erased_eeprom))
     = [(4, 0xFF), (5, 0xFF), (6, 0xFF), (7, 0xFF)] \<and>
   readLong 0 (setup_board 512 False (initial_state erased_eeprom)) = - 1"
  by (simp add: model_defs readLong_eq writeLong_eq erased_eeprom_def erased_bytes)

text \<open>
  The variant with the signed counter does what claim C9 says: a stored value that is
  not positive is reset in memory and 0 is written back.
\<close>

lemma initialzieSecondsCounter_resets:
  "sint (readLong 0 s) \<le> 0 \<Longrightarrow>
     secondsCounter (initialzieSecondsCounter s) = 0 \<and>
     readLong 0 (initialzieSecondsCounter s) = 0"
  by (simp add: initialzieSecondsCounter_def secondsCounterAddress_def Let_def
      readLong_eq writeLong_eq)

text \<open>
  The variants with the unsigned counter compare it unsigned: the stored \<open>-1\<close> is
  the largest counter value, nothing is reset and nothing is written.
\<close>

lemma initializeSecondsCounter_erased:
  "secondsCounter (initializeSecondsCounter (initial_state erased_eeprom)) = 4294967295 \<and>
   written (initializeSecondsCounter (initial_state erased_eeprom)) = []"
  by (simp add: initializeSecondsCounter_def model_defs readLong_eq writeLong_eq
      erased_eeprom_def erased_bytes)

section \<open>The full memory\<close>

text \<open>
  Claim C3. In a state in which \<^verbatim>\<open>isMemoryFull\<close> holds, a call of \<^verbatim>\<open>loop\<close> does not reach
  \<^verbatim>\<open>handleSensor\<close>: it leaves by an early return (the memory-full one unless the
  read-only one comes first) and changes nothing. Hence after any number of further
  calls, whatever the sensor reads, the state is the same: the memory is still full and
  neither the EEPROM cells nor the sequence of writes have changed.
\<close>

theorem full_is_permanent:
  "isMemoryFull s \<Longrightarrow>
     fst (loop b s) \<noteq> Polled \<and>
     (\<not> isReadOnly s \<longrightarrow> fst (loop b s) = MemoryIsFull) \<and>
     snd (loop b s) = s \<and>
     run bs s = s \<and>
     isMemoryFull (run bs s) \<and>
     written (run bs s) = written s \<and>
     eeprom (run bs s) = eeprom s"
  by (simp add: run_full) (simp add: loop_def)

theorem full_is_permanent_witness:
  "isMemoryFull (setup_board 512 False (initial_state eeprom_index_516)) \<and>
   \<not> isReadOnly (setup_board 512 False (initial_state eeprom_index_516)) \<and>
   fst (loop True (setup_board 512 False (initial_state eeprom_index_516))) = MemoryIsFull \<and>
   written (run [True, False, True] (setup_board 512 False (initial_state eeprom_index_516))) = []"
  using full_is_permanent [of "setup_board 512 False (initial_state eeprom_index_516)"
      True "[True, False, True]"]
  by (simp add: model_defs readLong_eq writeLong_eq eeprom_index_516_def)

text \<open>
  The check is the one of \<^verbatim>\<open>loop\<close>: \<^verbatim>\<open>handleSensor\<close> has none of its own, and a call of it
  in a full state without a pending event would write.
\<close>

lemma handleSensor_unguarded:
  "\<not> hasEvent s \<Longrightarrow> length (written (handleSensor True s)) = length (written s) + 8"
  by (simp add: handleSensor_def writeLong_eq Let_def)

text \<open>
  Claim C4, evaluated at a restart with event index 508 in an EEPROM of 512 bytes and
  the sensor high at the first pass. The guard compares the pointer before the advance
  with the size (508 is not above 512), so the pass stores the record at the advanced
  pointer: the bytes go to 512, 513, 514 and 515, none of which is below 512.
\<close>

theorem append_beyond_capacity:
  "memorySize (setup_board 512 False (initial_state eeprom_index_508)) = 512 \<and>
   eventAddress (setup_board 512 False (initial_state eeprom_index_508)) = 508 \<and>
   fst (loop True (setup_board 512 False (initial_state eeprom_index_508))) = Polled \<and>
   written (snd (loop True (setup_board 512 False (initial_state eeprom_index_508))))
     = [(512, 0), (513, 0), (514, 0), (515, 0), (4, 0), (5, 0), (6, 2), (7, 0)]"
  by (simp add: model_defs readLong_eq writeLong_eq eeprom_index_508_def)

lemma handleTimer_written: "set (written s) \<subseteq> set (written (handleTimer s))"
  by (auto simp add: handleTimer_def writeLong_eq Let_def)

lemma loop_append_written:
  assumes "appends b s"
  shows "(eventAddress s + 4, ucast (drop_bit 24 (secondsCounter s)))
           \<in> set (written (snd (loop b s)))"
proof -
  have "snd (loop b s) = handleTimer (handleSensor True s)" and idle: "\<not> hasEvent s"
    using assms by (simp_all add: appends_def loop_def)
  moreover have "(eventAddress s + 4, ucast (drop_bit 24 (secondsCounter s)))
      \<in> set (written (handleSensor True s))"
    using idle
    by (simp add: handleSensor_def writeLong_eq narrow_scast eventAddressStep_def Let_def)
  ultimately show ?thesis
    using handleTimer_written [of "handleSensor True s"] by auto
qed

lemma sint_508:
  assumes "sint (a::int16) = 508"
  shows "a = 508"
proof -
  have "a = word_of_int (sint a)"
    by simp
  also have "\<dots> = 508"
    by (simp add: assms)
  finally show ?thesis .
qed

text \<open>
  The same write is reached from an erased EEPROM of 512 bytes by the loop itself: after
  126 events, each followed by its 1200 quiet passes, the pointer is 508, the memory is
  not full, and the next pass with the sensor high writes at 512.
\<close>

lemma out_of_range_write_reached:
  "memorySize (setup_board 512 False (initial_state erased_eeprom)) = 512 \<and>
   512 \<in> fst ` set (written (run (concat (replicate 126 cooldown_block) @ [True])
                               (setup_board 512 False (initial_state erased_eeprom))))"
proof -
  let ?init = "setup_board 512 False (initial_state erased_eeprom)"
  let ?s = "run (concat (replicate 126 cooldown_block)) ?init"
  have s0: "\<not> isReadOnly ?init" "\<not> hasEvent ?init" "sint (eventAddress ?init) = 4"
    "memorySize ?init = 512"
    by (simp_all add: model_defs readLong_eq writeLong_eq erased_eeprom_def erased_bytes)
  have "\<not> hasEvent ?s \<and> sint (eventAddress ?s) = sint (eventAddress ?init) + 4 * int 126 \<and>
     memorySize ?s = memorySize ?init \<and> \<not> isReadOnly ?s"
    by (rule run_cooldown_blocks) (simp_all add: s0)
  then have s: "\<not> hasEvent ?s" "sint (eventAddress ?s) = 508" "memorySize ?s = 512"
    "\<not> isReadOnly ?s"
    by (simp_all add: s0)
  have ea: "eventAddress ?s = 508"
    using s(2) by (rule sint_508)
  have "appends True ?s"
    using s by (simp add: appends_def isMemoryFull_def)
  then have "(eventAddress ?s + 4, ucast (drop_bit 24 (secondsCounter ?s)))
      \<in> set (written (snd (loop True ?s)))"
    by (rule loop_append_written)
  then have "(512, ucast (drop_bit 24 (secondsCounter ?s))) \<in> set (written (snd (loop True ?s)))"
    by (simp add: ea)
  then have "512 \<in> fst ` set (written (snd (loop True ?s)))"
    by force
  then show ?thesis
    by (simp add: run_append s0)
qed

section \<open>The log after a run\<close>

text \<open>What one pass adds to the sequence of writes, and where.\<close>

lemma handleTimer_written_new:
  "\<exists>new. written (handleTimer s) = written s @ new \<and> (\<forall>x\<in>set new. uint (fst x) < 4)"
  by (simp add: handleTimer_def writeLong_eq secondsCounterAddress_def Let_def)

lemma handleSensor_written_new:
  assumes "0 \<le> sint (eventAddress s)"
  shows "\<exists>new. written (handleSensor b s) = written s @ new \<and>
           (\<forall>x\<in>set new. uint (fst x) < sint (eventAddress s) + 8)"
proof (cases "\<not> hasEvent s \<and> b")
  case False
  then have "written (handleSensor b s) = written s @ []"
    by (auto simp add: handleSensor_def Let_def)
  then show ?thesis
    by (metis empty_iff list.set(1))
next
  case True
  have a: "eventAddress s + 4 + 1 = eventAddress s + 5" "eventAddress s + 4 + 2 = eventAddress s + 6"
    "eventAddress s + 4 + 3 = eventAddress s + 7"
    by simp_all
  show ?thesis
    using True record_addresses [OF assms] assms
    by (simp add: handleSensor_def writeLong_eq narrow_scast eventIndexAddress_def
        eventAddressStep_def Let_def a)
qed

lemma loop_written_new:
  assumes "0 \<le> sint (eventAddress s)" and "4 \<le> B"
    and "appends b s \<longrightarrow> sint (eventAddress s) + 8 \<le> B"
  shows "\<exists>new. written (snd (loop b s)) = written s @ new \<and> (\<forall>x\<in>set new. uint (fst x) < B)"
proof (cases "fst (loop b s) = Polled")
  case False
  then have "written (snd (loop b s)) = written s @ []"
    by (auto simp add: loop_def split: if_splits)
  then show ?thesis
    by (metis empty_iff list.set(1))
next
  case True
  then have polled: "snd (loop b s) = handleTimer (handleSensor b s)"
    and mode: "\<not> isReadOnly s" "\<not> isMemoryFull s"
    by (auto simp add: loop_def split: if_splits)
  obtain n1 where n1: "written (handleSensor b s) = written s @ n1"
    "\<forall>x\<in>set n1. uint (fst x) < sint (eventAddress s) + 8"
    using handleSensor_written_new [OF assms(1), of b] by blast
  obtain n2 where n2: "written (handleTimer (handleSensor b s)) = written (handleSensor b s) @ n2"
    "\<forall>x\<in>set n2. uint (fst x) < 4"
    using handleTimer_written_new [of "handleSensor b s"] by blast
  have small: "\<forall>x\<in>set n1. uint (fst x) < B"
  proof (cases "appends b s")
    case True
    then show ?thesis
      using n1(2) assms(3) by fastforce
  next
    case False
    then have "\<not> (\<not> hasEvent s \<and> b)"
      using mode by (simp add: appends_def)
    then have "written (handleSensor b s) = written s"
      by (auto simp add: handleSensor_def Let_def)
    then have "n1 = []"
      using n1(1) by simp
    then show ?thesis
      by simp
  qed
  have "written (snd (loop b s)) = written s @ (n1 @ n2)"
    by (simp add: polled n1(1) n2(1))
  moreover have "\<forall>x\<in>set (n1 @ n2). uint (fst x) < B"
    using small n2(2) assms(2) by fastforce
  ultimately show ?thesis
    by blast
qed

text \<open>
  The invariant of a run that starts with the pointer at or above the index offset and
  whose records all fit below the size: the pointer has advanced by 4 for each stored
  event, the slots above the initial pointer hold the stored values in order, the
  records below are untouched, and every write of the run goes to a cell below the size.
\<close>

lemma run_log_within:
  "4 \<le> sint (eventAddress s) \<Longrightarrow>
   sint (eventAddress s) + 4 * int (length (events bs s)) + 4 \<le> sint (memorySize s) \<Longrightarrow>
     sint (eventAddress (run bs s)) = sint (eventAddress s) + 4 * int (length (events bs s)) \<and>
     map (\<lambda>k. readLong (scast (eventAddress s) + 4 + 4 * of_nat k) (run bs s))
         [0..<length (events bs s)] = events bs s \<and>
     (\<forall>x. 8 \<le> uint x \<and> uint x < sint (eventAddress s) + 4
          \<longrightarrow> eeprom (run bs s) x = eeprom s x) \<and>
     (\<exists>new. written (run bs s) = written s @ new \<and>
            (\<forall>x\<in>set new. uint (fst x) < sint (memorySize s)))"
proof (induction bs arbitrary: s)
  case Nil
  then show ?case by simp
next
  case (Cons b bs)
  let ?s1 = "snd (loop b s)"
  have nn: "0 \<le> sint (eventAddress s)"
    using Cons.prems(1) by simp
  have size: "8 \<le> sint (memorySize s)"
    using Cons.prems by simp
  have frame1: "eeprom ?s1 x = eeprom s x"
    if "8 \<le> uint x" "uint x < sint (eventAddress s) + 4" for x
    using loop_frame [OF nn that] .
  show ?case
  proof (cases "appends b s")
    case False
    then have ea1: "eventAddress ?s1 = eventAddress s"
      by (simp add: loop_eventAddress)
    have ev: "events (b # bs) s = events bs ?s1"
      using False by simp
    obtain n1 where n1: "written ?s1 = written s @ n1"
      "\<forall>x\<in>set n1. uint (fst x) < sint (memorySize s)"
      using loop_written_new [OF nn, of "sint (memorySize s)" b] size False by auto
    have ih:
      "sint (eventAddress (run bs ?s1))
         = sint (eventAddress s) + 4 * int (length (events bs ?s1))"
      "map (\<lambda>k. readLong (scast (eventAddress s) + 4 + 4 * of_nat k) (run bs ?s1))
           [0..<length (events bs ?s1)] = events bs ?s1"
      "\<And>x. 8 \<le> uint x \<Longrightarrow> uint x < sint (eventAddress s) + 4
         \<Longrightarrow> eeprom (run bs ?s1) x = eeprom ?s1 x"
      "\<exists>new. written (run bs ?s1) = written ?s1 @ new \<and>
            (\<forall>x\<in>set new. uint (fst x) < sint (memorySize s))"
      using Cons.IH [of ?s1] Cons.prems by (simp_all add: ea1 ev)
    obtain n2 where n2: "written (run bs ?s1) = written ?s1 @ n2"
      "\<forall>x\<in>set n2. uint (fst x) < sint (memorySize s)"
      using ih(4) by blast
    have "written (run bs ?s1) = written s @ (n1 @ n2)"
      by (simp add: n1(1) n2(1))
    moreover have "\<forall>x\<in>set (n1 @ n2). uint (fst x) < sint (memorySize s)"
      using n1(2) n2(2) by fastforce
    ultimately have wr: "\<exists>new. written (run bs ?s1) = written s @ new \<and>
            (\<forall>x\<in>set new. uint (fst x) < sint (memorySize s))"
      by blast
    show ?thesis
      using False ih(1,2) ih(3) frame1 wr by simp
  next
    case True
    have ev: "events (b # bs) s = secondsCounter s # events bs ?s1"
      using True by simp
    have bound: "sint (eventAddress s) + 4 * int (length (events bs ?s1)) + 8
        \<le> sint (memorySize s)"
      using Cons.prems(2) True by simp
    have room: "sint (eventAddress s) \<le> 32763"
      using bound sint_lt [of "memorySize s"] by simp
    have ea1: "eventAddress ?s1 = eventAddress s + 4"
      using True by (simp add: loop_eventAddress)
    have sea1: "sint (eventAddress ?s1) = sint (eventAddress s) + 4"
      using room by (simp add: ea1 sint_add4)
    obtain n1 where n1: "written ?s1 = written s @ n1"
      "\<forall>x\<in>set n1. uint (fst x) < sint (memorySize s)"
      using loop_written_new [OF nn, of "sint (memorySize s)" b] size bound by auto
    have ih:
      "sint (eventAddress (run bs ?s1))
         = sint (eventAddress s) + 4 + 4 * int (length (events bs ?s1))"
      "map (\<lambda>k. readLong (scast (eventAddress ?s1) + 4 + 4 * of_nat k) (run bs ?s1))
           [0..<length (events bs ?s1)] = events bs ?s1"
      "\<And>x. 8 \<le> uint x \<Longrightarrow> uint x < sint (eventAddress s) + 8
         \<Longrightarrow> eeprom (run bs ?s1) x = eeprom ?s1 x"
      "\<exists>new. written (run bs ?s1) = written ?s1 @ new \<and>
            (\<forall>x\<in>set new. uint (fst x) < sint (memorySize s))"
      using Cons.IH [of ?s1] Cons.prems(1) bound sea1 by simp_all
    obtain n2 where n2: "written (run bs ?s1) = written ?s1 @ n2"
      "\<forall>x\<in>set n2. uint (fst x) < sint (memorySize s)"
      using ih(4) by blast
    have "written (run bs ?s1) = written s @ (n1 @ n2)"
      by (simp add: n1(1) n2(1))
    moreover have "\<forall>x\<in>set (n1 @ n2). uint (fst x) < sint (memorySize s)"
      using n1(2) n2(2) by fastforce
    ultimately have wr: "\<exists>new. written (run bs ?s1) = written s @ new \<and>
            (\<forall>x\<in>set new. uint (fst x) < sint (memorySize s))"
      by blast
    have shift: "readLong (scast (eventAddress s) + 4 + 4 * of_nat (Suc k)) t
        = readLong (scast (eventAddress ?s1) + 4 + 4 * of_nat k) t" for k t
      by (rule readLong_narrow) (simp add: narrow_add narrow_scast ea1 distrib_left)
    have rest: "map (\<lambda>k. readLong (scast (eventAddress s) + 4 + 4 * of_nat (Suc k)) (run bs ?s1))
           [0..<length (events bs ?s1)] = events bs ?s1"
      using ih(2) by (simp only: shift)
    have a: "(ucast (scast (eventAddress s) + 4 :: long) :: int16) = eventAddress s + 4"
      "eventAddress s + 4 + 1 = eventAddress s + 5" "eventAddress s + 4 + 2 = eventAddress s + 6"
      "eventAddress s + 4 + 3 = eventAddress s + 7"
      by (simp_all add: narrow_add narrow_scast)
    have kept: "eeprom (run bs ?s1) (eventAddress s + 4) = eeprom ?s1 (eventAddress s + 4)"
      "eeprom (run bs ?s1) (eventAddress s + 5) = eeprom ?s1 (eventAddress s + 5)"
      "eeprom (run bs ?s1) (eventAddress s + 6) = eeprom ?s1 (eventAddress s + 6)"
      "eeprom (run bs ?s1) (eventAddress s + 7) = eeprom ?s1 (eventAddress s + 7)"
      using record_addresses [OF nn] Cons.prems(1) by (simp_all add: ih(3))
    have "readLong (scast (eventAddress s) + 4) (run bs ?s1)
        = readLong (scast (eventAddress s) + 4) ?s1"
      by (rule readLong_frame) (simp_all only: a kept)
    then have first: "readLong (scast (eventAddress s) + 4) (run bs ?s1) = secondsCounter s"
      using loop_stores [OF True Cons.prems(1)] by simp
    have frame: "eeprom (run bs ?s1) x = eeprom s x"
      if "8 \<le> uint x" "uint x < sint (eventAddress s) + 4" for x
      using ih(3) [of x] frame1 [of x] that by simp
    have "map (\<lambda>k. readLong (scast (eventAddress s) + 4 + 4 * of_nat k) (run bs ?s1))
           [0..<Suc (length (events bs ?s1))] = secondsCounter s # events bs ?s1"
      using first rest by (simp only: map_upt_Suc) simp
    then show ?thesis
      using True ih(1) frame wr by simp
  qed
qed

text \<open>The dump prints at most one pair per slot below the length, each as stored.\<close>

lemma printMemoryStatus_from_length:
  "4 * length (printMemoryStatus_from len i zc s) \<le> unat len - i + 3"
proof (induction len i zc s rule: printMemoryStatus_from.induct)
  case (1 len i zeroCount s)
  show ?case
  proof (cases "i < unat len")
    case False
    then show ?thesis
      by (simp add: printMemoryStatus_from.simps [of len i])
  next
    case True
    let ?read = "readLong (of_nat i) s"
    let ?zc = "if ?read = 0 then zeroCount + 1 else zeroCount - 1"
    show ?thesis
    proof (cases "4 < sint ?zc")
      case stop: True
      then show ?thesis
        using True by (simp add: printMemoryStatus_from.simps [of len i] Let_def)
    next
      case go: False
      have "4 * length (printMemoryStatus_from len (i + 4) ?zc s) \<le> unat len - (i + 4) + 3"
        using "1.IH" [OF True refl refl go] .
      then show ?thesis
        using True go
        by (cases "readLong (of_nat i) s = 0")
          (simp_all add: printMemoryStatus_from.simps [of len i] Let_def, arith+)
    qed
  qed
qed

lemma printMemoryStatus_length: "4 * length (printMemoryStatus len s) \<le> unat len + 3"
  using printMemoryStatus_from_length [of len 0 0 s] by (simp add: printMemoryStatus_def)

lemma printMemoryStatus_from_entries:
  "j < length (printMemoryStatus_from len i zc s) \<Longrightarrow>
     printMemoryStatus_from len i zc s ! j
       = (of_nat (i + 4 * j), readLong (of_nat (i + 4 * j)) s)"
proof (induction len i zc s arbitrary: j rule: printMemoryStatus_from.induct)
  case (1 len i zeroCount s)
  show ?case
  proof (cases "i < unat len")
    case False
    then show ?thesis
      using "1.prems" by (simp add: printMemoryStatus_from.simps [of len i])
  next
    case True
    let ?read = "readLong (of_nat i) s"
    let ?zc = "if ?read = 0 then zeroCount + 1 else zeroCount - 1"
    show ?thesis
    proof (cases j)
      case 0
      then show ?thesis
        using True by (simp add: printMemoryStatus_from.simps [of len i] Let_def)
    next
      case (Suc k)
      show ?thesis
      proof (cases "4 < sint ?zc")
        case stop: True
        then show ?thesis
          using True "1.prems" Suc by (simp add: printMemoryStatus_from.simps [of len i] Let_def)
      next
        case go: False
        have "k < length (printMemoryStatus_from len (i + 4) ?zc s)"
          using True go "1.prems" Suc by (simp add: printMemoryStatus_from.simps [of len i] Let_def)
        then have "printMemoryStatus_from len (i + 4) ?zc s ! k
            = (of_nat (i + 4 + 4 * k), readLong (of_nat (i + 4 + 4 * k)) s)"
          using "1.IH" [OF True refl refl go] by simp
        then show ?thesis
          using True go Suc
          by (simp add: printMemoryStatus_from.simps [of len i] Let_def add.assoc)
      qed
    qed
  qed
qed

lemma printMemoryStatus_entries:
  "j < length (printMemoryStatus len s) \<Longrightarrow>
     printMemoryStatus len s ! j = (4 * of_nat j, readLong (4 * of_nat j) s)"
  using printMemoryStatus_from_entries [of j len 0 0 s] by (simp add: printMemoryStatus_def)

text \<open>
  Two dumps of an EEPROM of 32 bytes: with seconds counter 5 and event index 8 all eight
  slots are printed; with all cells zero the loop leaves after the fifth.
\<close>

lemma printMemoryStatus_examples:
  "printMemoryStatus 32 (initial_state eeprom_one_event)
     = [(0, 5), (4, 8), (8, 0), (12, 0), (16, 0), (20, 0), (24, 0), (28, 0)] \<and>
   printMemoryStatus 32 (initial_state blank_eeprom)
     = [(0, 0), (4, 0), (8, 0), (12, 0), (16, 0)]"
  by (simp add: printMemoryStatus_def printMemoryStatus_from.simps initial_state_def
      readLong_eq eeprom_one_event_def blank_eeprom_def)

text \<open>
  As long as all records fit into the EEPROM, the log is as claim C5 describes it: from
  the empty log, after a run that stores \<open>K\<close> events with \<open>8 + 4 * K\<close> at most the
  size, the pointer is \<open>4 + 4 * K\<close>, the slots at 8, 12 and so on hold the \<open>K\<close> values in
  order, no cell at or beyond the size has been written, and each record that the dump
  prints (from its third pair on) is the stored value at its offset.
\<close>

lemma log_within_capacity:
  assumes "eventAddress s = eventIndexAddress"
    and "sint eventIndexAddress + 4 * int (length (events bs s)) + 4 \<le> sint (memorySize s)"
  shows "sint (eventAddress (run bs s))
           = sint eventIndexAddress + 4 * int (length (events bs s)) \<and>
         map (\<lambda>k. readLong (scast eventIndexAddress + 4 + 4 * of_nat k) (run bs s))
             [0..<length (events bs s)] = events bs s \<and>
         (\<exists>new. written (run bs s) = written s @ new \<and>
                (\<forall>x\<in>set new. uint (fst x) < sint (memorySize s))) \<and>
         (\<forall>k<length (events bs s). k + 2 < length (printMemoryStatus len (run bs s)) \<longrightarrow>
            printMemoryStatus len (run bs s) ! (k + 2)
              = (scast eventIndexAddress + 4 + 4 * of_nat k, events bs s ! k))"
proof -
  have log: "sint (eventAddress (run bs s))
           = sint eventIndexAddress + 4 * int (length (events bs s))"
    "map (\<lambda>k. readLong (scast eventIndexAddress + 4 + 4 * of_nat k) (run bs s))
             [0..<length (events bs s)] = events bs s"
    "\<exists>new. written (run bs s) = written s @ new \<and>
                (\<forall>x\<in>set new. uint (fst x) < sint (memorySize s))"
    using run_log_within [of s bs] assms by (simp_all add: eventIndexAddress_def)
  have "printMemoryStatus len (run bs s) ! (k + 2)
          = (scast eventIndexAddress + 4 + 4 * of_nat k, events bs s ! k)"
    if k: "k < length (events bs s)" and reached: "k + 2 < length (printMemoryStatus len (run bs s))"
    for k
  proof -
    have "map (\<lambda>k. readLong (scast eventIndexAddress + 4 + 4 * of_nat k) (run bs s))
             [0..<length (events bs s)] ! k = events bs s ! k"
      by (simp only: log(2))
    then have slot: "readLong (scast eventIndexAddress + 4 + 4 * of_nat k) (run bs s)
        = events bs s ! k"
      using k by simp
    have "(4 * of_nat (k + 2) :: long) = scast eventIndexAddress + 4 + 4 * of_nat k"
      by (simp add: eventIndexAddress_def)
    then show ?thesis
      using printMemoryStatus_entries [OF reached] slot by simp
  qed
  then show ?thesis
    using log by blast
qed

text \<open>The events of runs of cooldown blocks.\<close>

lemma events_append: "events (xs @ ys) s = events xs s @ events ys (run xs s)"
  by (induction xs arbitrary: s) simp_all

lemma events_quiet: "events (replicate n False) s = []"
  by (induction n arbitrary: s) (simp_all add: appends_def)

lemma events_cooldown_block:
  "appends True s \<Longrightarrow> events cooldown_block s = [secondsCounter s]"
  by (simp add: cooldown_block_def events_quiet)

lemma events_cooldown_blocks:
  "\<not> isReadOnly s \<Longrightarrow> \<not> hasEvent s \<Longrightarrow>
   sint (eventAddress s) + 4 * int k \<le> sint (memorySize s) \<Longrightarrow>
     length (events (concat (replicate k cooldown_block)) s) = k"
proof (induction k arbitrary: s)
  case 0
  then show ?case by simp
next
  case (Suc k)
  let ?s1 = "run cooldown_block s"
  have app: "appends True s"
    using Suc.prems by (simp add: appends_def isMemoryFull_def)
  have step: "\<not> hasEvent ?s1 \<and> sint (eventAddress ?s1) = sint (eventAddress s) + 4 \<and>
     memorySize ?s1 = memorySize s \<and> \<not> isReadOnly ?s1"
    using run_cooldown_block [of s] Suc.prems by simp
  then have "length (events (concat (replicate k cooldown_block)) ?s1) = k"
    using Suc.IH [of ?s1] Suc.prems(3) by simp
  then show ?case
    by (simp add: events_append events_cooldown_block [OF app])
qed

text \<open>
  On an erased EEPROM of 512 bytes, 126 events fill the slots 8 to 508 and read back.
\<close>

lemma log_fills_capacity:
  "length (events (concat (replicate 126 cooldown_block))
             (setup_board 512 False (initial_state erased_eeprom))) = 126 \<and>
   sint (eventAddress (run (concat (replicate 126 cooldown_block))
                         (setup_board 512 False (initial_state erased_eeprom)))) = 508 \<and>
   map (\<lambda>k. readLong (8 + 4 * of_nat k)
               (run (concat (replicate 126 cooldown_block))
                  (setup_board 512 False (initial_state erased_eeprom))))
       [0..<126]
     = events (concat (replicate 126 cooldown_block))
         (setup_board 512 False (initial_state erased_eeprom))"
proof -
  let ?init = "setup_board 512 False (initial_state erased_eeprom)"
  let ?blocks = "concat (replicate 126 cooldown_block)"
  have i: "\<not> isReadOnly ?init" "\<not> hasEvent ?init" "sint (eventAddress ?init) = 4"
    "memorySize ?init = 512"
    by (simp_all add: model_defs readLong_eq writeLong_eq erased_eeprom_def erased_bytes)
  have empty: "eventAddress ?init = eventIndexAddress"
    by (simp add: model_defs readLong_eq writeLong_eq erased_eeprom_def erased_bytes)
  have count: "length (events ?blocks ?init) = 126"
    by (rule events_cooldown_blocks) (simp_all add: i)
  have room: "sint eventIndexAddress + 4 * int (length (events ?blocks ?init)) + 4
      \<le> sint (memorySize ?init)"
    by (simp add: count i(4) eventIndexAddress_def)
  show ?thesis
    using log_within_capacity [OF empty room, of 512] count
    by (simp add: eventIndexAddress_def)
qed

text \<open>
  Claim C5, evaluated on an erased EEPROM of 512 bytes and 127 events, each but the last
  followed by its 1200 quiet passes. The log starts empty, no event meets a full
  memory (the state before the last one is not full either), and the pointer is
  \<open>4 + 4 * 127 = 512\<close> afterwards. But the record of the last event has been written at
  512, beyond the last cell, and the dump reads the slots below 512 only: from offset
  8 on it prints at most 126 records, not the 127 that were stored.
\<close>

theorem log_overruns_capacity:
  "memorySize (setup_board 512 False (initial_state erased_eeprom)) = 512 \<and>
   eventAddress (setup_board 512 False (initial_state erased_eeprom)) = eventIndexAddress \<and>
   \<not> isMemoryFull (run (concat (replicate 126 cooldown_block))
                     (setup_board 512 False (initial_state erased_eeprom))) \<and>
   length (events (concat (replicate 126 cooldown_block) @ [True])
             (setup_board 512 False (initial_state erased_eeprom))) = 127 \<and>
   sint (eventAddress (run (concat (replicate 126 cooldown_block) @ [True])
                         (setup_board 512 False (initial_state erased_eeprom)))) = 512 \<and>
   512 \<in> fst ` set (written (run (concat (replicate 126 cooldown_block) @ [True])
                               (setup_board 512 False (initial_state erased_eeprom)))) \<and>
   length (drop 2 (printMemoryStatus 512
                     (run (concat (replicate 126 cooldown_block) @ [True])
                        (setup_board 512 False (initial_state erased_eeprom))))) \<le> 126"
proof -
  let ?init = "setup_board 512 False (initial_state erased_eeprom)"
  let ?blocks = "concat (replicate 126 cooldown_block)"
  let ?s = "run ?blocks ?init"
  have i: "\<not> isReadOnly ?init" "\<not> hasEvent ?init" "sint (eventAddress ?init) = 4"
    "memorySize ?init = 512"
    by (simp_all add: model_defs readLong_eq writeLong_eq erased_eeprom_def erased_bytes)
  have empty: "eventAddress ?init = eventIndexAddress"
    by (simp add: model_defs readLong_eq writeLong_eq erased_eeprom_def erased_bytes)
  have "\<not> hasEvent ?s \<and> sint (eventAddress ?s) = sint (eventAddress ?init) + 4 * int 126 \<and>
     memorySize ?s = memorySize ?init \<and> \<not> isReadOnly ?s"
    by (rule run_cooldown_blocks) (simp_all add: i)
  then have s: "\<not> hasEvent ?s" "sint (eventAddress ?s) = 508" "memorySize ?s = 512"
    "\<not> isReadOnly ?s"
    by (simp_all add: i)
  have notfull: "\<not> isMemoryFull ?s"
    using s by (simp add: isMemoryFull_def)
  have app: "appends True ?s"
    using s notfull by (simp add: appends_def)
  have "length (events ?blocks ?init) = 126"
    by (rule events_cooldown_blocks) (simp_all add: i)
  then have count: "length (events (?blocks @ [True]) ?init) = 127"
    using app by (simp add: events_append)
  have "sint (eventAddress (snd (loop True ?s))) = 512"
    using app s(2) sint_add4 [of "eventAddress ?s"] by (simp add: loop_eventAddress)
  then have pointer: "sint (eventAddress (run (?blocks @ [True]) ?init)) = 512"
    by (simp add: run_append)
  have wrote: "512 \<in> fst ` set (written (run (?blocks @ [True]) ?init))"
    using out_of_range_write_reached by simp
  have "4 * length (printMemoryStatus 512 (run (?blocks @ [True]) ?init)) \<le> unat (512 :: int16) + 3"
    by (rule printMemoryStatus_length)
  then have dump: "length (drop 2 (printMemoryStatus 512 (run (?blocks @ [True]) ?init))) \<le> 126"
    by simp
  show ?thesis
    using i(4) empty notfull count pointer wrote dump by simp
qed

section \<open>The seconds counter\<close>

lemma run_secondsCounter:
  "secondsCounter (run bs s) = secondsCounter s + of_nat (ticks bs s)"
  by (induction bs arbitrary: s) (simp_all add: loop_secondsCounter)

lemma run_keeps_synced:
  "0 \<le> sint (eventAddress s) \<Longrightarrow> sint (memorySize s) \<le> 32763 \<Longrightarrow>
   readLong (scast secondsCounterAddress) s = secondsCounter s \<or> 0 < ticks bs s \<Longrightarrow>
     readLong (scast secondsCounterAddress) (run bs s) = secondsCounter (run bs s)"
proof (induction bs arbitrary: s)
  case Nil
  then show ?case by simp
next
  case (Cons b bs)
  let ?s1 = "snd (loop b s)"
  have nn: "0 \<le> sint (eventAddress ?s1)"
    using loop_address_nonneg [OF Cons.prems(1,2)] .
  have ms: "sint (memorySize ?s1) \<le> 32763"
    using Cons.prems(2) by simp
  have "readLong (scast secondsCounterAddress) ?s1 = secondsCounter ?s1 \<or> 0 < ticks bs ?s1"
  proof (cases "readLong (scast secondsCounterAddress) s = secondsCounter s \<or> fires s")
    case True
    then show ?thesis
      using loop_keeps_synced [OF Cons.prems(1) True] by simp
  next
    case False
    then show ?thesis
      using Cons.prems(3) by simp
  qed
  then show ?case
    using Cons.IH [OF nn ms] by simp
qed

text \<open>
  Claim C6. A tick is a pass of the loop in normal mode in which \<^verbatim>\<open>handleTimer\<close> takes its
  branch. After a run with \<open>N\<close> ticks the seconds counter is its initial value plus
  \<open>N\<close> (as 32-bit words; as signed numbers too if the sum stays below \<open>2^31\<close>). Right
  after a pass with a tick the four bytes at offset 0 decode to the counter in memory;
  and once a tick has happened they still do after any further passes, given a pointer
  that is not negative and a size for which the advance stays within \<^verbatim>\<open>int\<close>.
\<close>

theorem seconds_counter_counts_ticks:
  "secondsCounter (run bs s) = secondsCounter s + of_nat (ticks bs s) \<and>
   (sint (secondsCounter s) + int (ticks bs s) < 2147483648 \<longrightarrow>
      sint (secondsCounter (run bs s)) = sint (secondsCounter s) + int (ticks bs s)) \<and>
   (fires s \<longrightarrow>
      readLong (scast secondsCounterAddress) (snd (loop b s)) = secondsCounter (snd (loop b s))) \<and>
   (0 \<le> sint (eventAddress s) \<and> sint (memorySize s) \<le> 32763 \<and> 0 < ticks bs s \<longrightarrow>
      readLong (scast secondsCounterAddress) (run bs s) = secondsCounter (run bs s))"
  by (simp add: run_secondsCounter sint_add_of_nat loop_persists run_keeps_synced)

text \<open>
  After a start on an all-zero EEPROM and nineteen quiet passes the twentieth pass is a
  tick: the counter goes from 0 to 1 and offset 0 decodes to 1, also when that pass
  stores an event.
\<close>

theorem seconds_counter_counts_ticks_witness:
  "fires (run nineteen_quiet (setup_board 512 False (initial_state blank_eeprom))) \<and>
   ticks [True] (run nineteen_quiet (setup_board 512 False (initial_state blank_eeprom))) = 1 \<and>
   sint (secondsCounter (run nineteen_quiet (setup_board 512 False (initial_state blank_eeprom))))
     + int (ticks [True] (run nineteen_quiet (setup_board 512 False (initial_state blank_eeprom))))
     < 2147483648 \<and>
   0 \<le> sint (eventAddress (run nineteen_quiet (setup_board 512 False (initial_state blank_eeprom)))) \<and>
   sint (memorySize (run nineteen_quiet (setup_board 512 False (initial_state blank_eeprom)))) \<le> 32763 \<and>
   secondsCounter (run nineteen_quiet (setup_board 512 False (initial_state blank_eeprom))) = 0 \<and>
   secondsCounter
     (run [True] (run nineteen_quiet (setup_board 512 False (initial_state blank_eeprom)))) = 1 \<and>
   readLong (scast secondsCounterAddress)
     (snd (loop True (run nineteen_quiet (setup_board 512 False (initial_state blank_eeprom))))) = 1 \<and>
   readLong (scast secondsCounterAddress)
     (run [True] (run nineteen_quiet (setup_board 512 False (initial_state blank_eeprom)))) = 1"
  using seconds_counter_counts_ticks
    [of "[True]" "run nineteen_quiet (setup_board 512 False (initial_state blank_eeprom))" True]
  by (simp add: nineteen_quiet_def fires_def appends_def model_defs readLong_eq writeLong_eq
      blank_eeprom_def)

section \<open>The debounce\<close>

text \<open>While the event flag is up, no call stores an event.\<close>

lemma pulses_quiet:
  "hasEvent s \<Longrightarrow> 0 \<le> sint (eventTime s) \<Longrightarrow> sint (eventTime s) + int n \<le> 1201 \<Longrightarrow>
     filter (\<lambda>p. p) (take n (pulses bs s)) = []"
proof (induction n arbitrary: bs s)
  case 0
  then show ?case by simp
next
  case (Suc n)
  show ?case
  proof (cases bs)
    case Nil
    then show ?thesis by simp
  next
    case (Cons b bs')
    show ?thesis
    proof (cases n)
      case 0
      with Cons Suc.prems show ?thesis by simp
    next
      case (Suc m)
      with Suc.prems have lt: "sint (eventTime s) < 1200" by simp
      from handleSensor_cooling [OF Suc.prems(1) lt, of b]
      have h: "hasEvent (handleSensor b s)"
        and t: "sint (eventTime (handleSensor b s)) = sint (eventTime s) + 1"
        by simp_all
      have "filter (\<lambda>p. p) (take n (pulses bs' (handleSensor b s))) = []"
        using Suc.IH [OF h] t Suc.prems by simp
      with Cons Suc.prems(1) show ?thesis by simp
    qed
  qed
qed

text \<open>Any 1201 successive calls hold at most one call that stores an event.\<close>

lemma pulses_window_general:
  "length (filter (\<lambda>p. p) (take (Suc 1200) (drop i (pulses bs s)))) \<le> 1"
proof (induction bs arbitrary: i s)
  case Nil
  then show ?case by simp
next
  case (Cons b bs)
  show ?case
  proof (cases i)
    case (Suc j)
    then show ?thesis using Cons.IH [of j "handleSensor b s"] by simp
  next
    case 0
    show ?thesis
    proof (cases "\<not> hasEvent s \<and> b")
      case True
      then have h: "hasEvent (handleSensor b s)"
        and t: "sint (eventTime (handleSensor b s)) = 1"
        using handleSensor_hasEvent_fresh [of s b] by simp_all
      have "filter (\<lambda>p. p) (take 1200 (pulses bs (handleSensor b s))) = []"
        using pulses_quiet [OF h, of 1200 bs] t by simp
      with 0 True show ?thesis by simp
    next
      case False
      have "length (filter (\<lambda>p. p) (take 1200 (pulses bs (handleSensor b s))))
            \<le> length (filter (\<lambda>p. p) (take (Suc 1200) (drop 0 (pulses bs (handleSensor b s)))))"
        using count_take_mono [of "\<lambda>p. p" 1200 "pulses bs (handleSensor b s)"] by simp
      also have "\<dots> \<le> 1"
        by (rule Cons.IH)
      finally show ?thesis using 0 False by auto
    qed
  qed
qed

text \<open>
  Claim C8. For every sequence of sensor readings and every state in which the calls of
  \<^verbatim>\<open>handleSensor\<close> start, any window of \<^verbatim>\<open>eventsDelay\<close> (1200) successive calls, wherever it
  begins, holds at most one call that stores an event.
\<close>

theorem one_pulse_per_cooldown_window:
  "length (filter (\<lambda>p. p) (take (nat (sint eventsDelay)) (drop i (pulses bs s)))) \<le> 1"
proof -
  have "length (filter (\<lambda>p. p) (take 1200 (drop i (pulses bs s))))
        \<le> length (filter (\<lambda>p. p) (take (Suc 1200) (drop i (pulses bs s))))"
    by (rule count_take_mono)
  also have "\<dots> \<le> 1"
    by (rule pulses_window_general)
  finally show ?thesis
    by (simp add: sint_eventsDelay)
qed

section \<open>A stored index at start-up\<close>

lemma initializeEventAddress_positive:
  assumes "0 < sint (readLong (scast eventIndexAddress) s)"
    and "sint (readLong (scast eventIndexAddress) s) \<le> 32767"
  shows "initializeEventAddress s
         = s \<lparr> eventAddress := ucast (readLong (scast eventIndexAddress) s) \<rparr>"
  using narrow_small [OF assms] assms(1) by (simp add: initializeEventAddress_def Let_def)

lemma run_alignment:
  "uint (eventAddress (run bs s)) mod 4 = uint (eventAddress s) mod 4"
  by (induction bs arbitrary: s) (simp_all add: loop_alignment)

text \<open>
  Claim C10, as amended. For every stored index value \<open>v\<close> with \<open>0 < v \<le> 32767\<close> (the
  positive values of an \<^verbatim>\<open>int\<close>), \<^verbatim>\<open>setup\<close> takes \<open>v\<close> over as the pointer in memory without
  any check and without writing: the pointer equals \<open>v\<close> whether or not \<open>v\<close> is a multiple
  of 4 or exceeds the EEPROM size; the memory is full exactly if \<open>v\<close> exceeds the size,
  and then the first pass of the loop (if not read-only) already takes the memory-full
  return; and after any run the pointer is congruent to \<open>v\<close> modulo 4, so a misaligned
  index keeps all later records misaligned.
\<close>

theorem positive_stored_index_accepted:
  assumes "0 < sint (readLong (scast eventIndexAddress) s)"
    and "sint (readLong (scast eventIndexAddress) s) \<le> 32767"
  shows "sint (eventAddress (setup_board len sw s)) = sint (readLong (scast eventIndexAddress) s) \<and>
     written (setup_board len sw s) = written s \<and>
     (isMemoryFull (setup_board len sw s)
        \<longleftrightarrow> sint len < sint (readLong (scast eventIndexAddress) s)) \<and>
     (sint len < sint (readLong (scast eventIndexAddress) s) \<and> \<not> isReadOnly (setup_board len sw s)
        \<longrightarrow> fst (loop b (setup_board len sw s)) = MemoryIsFull) \<and>
     uint (eventAddress (run bs (setup_board len sw s))) mod 4
        = sint (readLong (scast eventIndexAddress) s) mod 4"
proof -
  let ?v = "readLong (scast eventIndexAddress) s"
  have same: "readLong (scast eventIndexAddress) (s \<lparr> memorySize := len \<rparr>) = ?v"
    by (simp add: readLong_eq)
  have init: "initializeEventAddress (s \<lparr> memorySize := len \<rparr>)
      = s \<lparr> memorySize := len, eventAddress := ucast ?v \<rparr>"
    using initializeEventAddress_positive [of "s \<lparr> memorySize := len \<rparr>"] assms
    by (simp add: same)
  have ea: "eventAddress (setup_board len sw s) = ucast ?v"
    and ms: "memorySize (setup_board len sw s) = len"
    and wr: "written (setup_board len sw s) = written s"
    by (simp_all add: setup_board_def init Let_def)
  have s: "sint (eventAddress (setup_board len sw s)) = sint ?v"
    using narrow_small [OF assms] by (simp add: ea)
  have u: "uint (eventAddress (setup_board len sw s)) = sint ?v"
    using uint_of_sint [of "eventAddress (setup_board len sw s)"] s assms(1) by simp
  show ?thesis
    using s wr u by (simp add: isMemoryFull_def ms run_alignment loop_def)
qed

text \<open>
  A stored index 516 with an EEPROM of 512 bytes: the pointer is 516 and the first pass
  takes the memory-full return. A stored index 9: the pointer is 9, and 13 after an
  event.
\<close>

theorem positive_stored_index_accepted_witness:
  "sint (readLong (scast eventIndexAddress) (initial_state eeprom_index_516)) = 516 \<and>
   sint (eventAddress (setup_board 512 False (initial_state eeprom_index_516))) = 516 \<and>
   written (setup_board 512 False (initial_state eeprom_index_516)) = [] \<and>
   isMemoryFull (setup_board 512 False (initial_state eeprom_index_516)) \<and>
   \<not> isReadOnly (setup_board 512 False (initial_state eeprom_index_516)) \<and>
   fst (loop True (setup_board 512 False (initial_state eeprom_index_516))) = MemoryIsFull \<and>
   sint (readLong (scast eventIndexAddress) (initial_state eeprom_index_9)) = 9 \<and>
   sint (eventAddress (setup_board 512 False (initial_state eeprom_index_9))) = 9 \<and>
   uint (eventAddress (run [True] (setup_board 512 False (initial_state eeprom_index_9)))) = 13"
  using positive_stored_index_accepted [of "initial_state eeprom_index_516" 512 False True "[True]"]
    positive_stored_index_accepted [of "initial_state eeprom_index_9" 512 False True "[True]"]
  by (simp add: model_defs readLong_eq writeLong_eq eeprom_index_516_def eeprom_index_9_def)

text \<open>
  Claim C10 as stated fails for a stored value that no \<^verbatim>\<open>int\<close> holds: the stored index
  65541 is positive, and the pointer after \<^verbatim>\<open>setup\<close> is 5.
\<close>

theorem wide_stored_index_counterexample:
  "sint (readLong (scast eventIndexAddress) (initial_state eeprom_index_65541)) = 65541 \<and>
   sint (eventAddress (setup_board 512 False (initial_state eeprom_index_65541))) = 5"
  by (simp add: model_defs readLong_eq eeprom_index_65541_def)

end
